theory Spec2Isabelle
  imports Main "HOL-Library.Word" "HOL-Library.Multiset"
begin

unbundle bit_operations_syntax

section \<open>Data of the audit\<close>

text \<open>
  Go's fixed-width integers are words. \<open>int64\<close> and \<open>uint64\<close> share the
  64-bit representation: a conversion between them keeps the bits, \<open>+\<close>, \<open>-\<close> and unary
  minus wrap around, and \<open>sint\<close> reads the signed value. \<open>btcutil.Amount\<close> is declared
  as \<open>int64\<close>; a Go \<open>error\<close> is represented by its message.
\<close>

type_synonym uint64 = "64 word"
type_synonym int64 = "64 word"
type_synonym uint32 = "32 word"
type_synonym uint16 = "16 word"
type_synonym Amount = int64
type_synonym error = string

text \<open>
  \<open>lnwire.ShortChannelID\<close>, the structured form of a channel identifier and the key of
  every map of \<open>main\<close>.
\<close>

record ShortChannelID =
  BlockHeight :: uint32
  TxIndex :: uint32
  TxPosition :: uint16

text \<open>
  Modelled from the spec: \<open>lnwire.NewShortChanIDFromInt\<close> and
  \<open>ShortChannelID.ToUint64\<close> belong to the vendored \<open>lnwire\<close> package, which is not
  among the source files. The spec describes the identifier as a 64-bit integer encoding
  (block height, transaction index, output index) with two interchangeable
  representations. The field widths are not given there; they are taken as the
  \<open>lnwire\<close> package lays them out: the block height in the upper 24 bits, the
  transaction index in the next 24 bits and the output index in the lowest 16 bits.
\<close>

definition NewShortChanIDFromInt :: "uint64 \<Rightarrow> ShortChannelID" where
  "NewShortChanIDFromInt chanID =
     \<lparr>BlockHeight = ucast (drop_bit 40 chanID),
      TxIndex = ucast (drop_bit 16 chanID) AND 0xFFFFFF,
      TxPosition = ucast chanID\<rparr>"

text \<open>
  Modelled from the spec: the inverse direction, \<open>ShortChannelID.ToUint64\<close>, missing
  from the source files like \<open>NewShortChanIDFromInt\<close> above.
\<close>

definition ToUint64 :: "ShortChannelID \<Rightarrow> uint64" where
  "ToUint64 c =
     push_bit 40 (ucast (BlockHeight c)) OR push_bit 16 (ucast (TxIndex c))
       OR ucast (TxPosition c)"

text \<open>
  The \<open>lnrpc\<close> messages, with the fields \<open>main\<close> reads. \<open>lnrpc.Channel\<close> and
  \<open>lnrpc.ChannelEdge\<close> both call their capacity \<open>Capacity\<close> (an \<open>int64\<close>); the
  field of the edge is named \<open>EdgeCapacity\<close> here, as field names are global.
\<close>

record Channel =
  ChanId :: uint64
  Capacity :: int64

record ChannelEdge =
  EdgeCapacity :: int64

record ForwardingEvent =
  ChanIdIn :: uint64
  ChanIdOut :: uint64
  AmtIn :: uint64
  AmtOut :: uint64
  Fee :: uint64

text \<open>
  The node as \<open>main\<close> sees it through \<open>lndClient\<close>: the answer to each of the three
  calls, an error or the response.
\<close>

record LndClient =
  ListChannels :: "error + Channel list"
  GetChanInfo :: "uint64 \<Rightarrow> error + ChannelEdge"
  ForwardingHistory :: "error + ForwardingEvent list"

section \<open>Effects: the log and the calls made\<close>

text \<open>
  A call \<open>log.Printf(format, args...)\<close> is recorded as the format with the arguments
  passed to it, in the order of the calls. The calls sent to the node are recorded too.
\<close>

datatype LogArg =
    ErrArg error
  | CidArg ShortChannelID
  | Int64Arg int64
  | AmountArg Amount
  | LenArg nat

type_synonym LogLine = "string \<times> LogArg list"

datatype RpcCall =
    ListChannelsCall
  | GetChanInfoCall uint64
  | ForwardingHistoryCall

record World =
  logged :: "LogLine list"
  rpcs :: "RpcCall list"

definition Printf :: "string \<Rightarrow> LogArg list \<Rightarrow> World \<Rightarrow> World" where
  "Printf format args w = w\<lparr>logged := logged w @ [(format, args)]\<rparr>"

definition rpc :: "RpcCall \<Rightarrow> World \<Rightarrow> World" where
  "rpc c w = w\<lparr>rpcs := rpcs w @ [c]\<rparr>"

text \<open>
  Go leaves the order of \<open>range\<close> over a map unspecified. The order is an input of the
  model: \<open>rangeMap m ks\<close> visits the entries of \<open>m\<close> in the order \<open>ks\<close>, and \<open>ks\<close>
  is an order Go can choose when it lists every key of \<open>m\<close> once.
\<close>

definition rangeMap :: "('k \<rightharpoonup> 'v) \<Rightarrow> 'k list \<Rightarrow> ('k \<times> 'v) list" where
  "rangeMap m ks = List.map_filter (\<lambda>k. map_option (Pair k) (m k)) ks"

definition rangeOrder :: "('k \<rightharpoonup> 'v) \<Rightarrow> 'k list \<Rightarrow> bool" where
  "rangeOrder m ks \<longleftrightarrow> distinct ks \<and> set ks = dom m"

section \<open>Subjective view (main.go, lines 81 to 86)\<close>

definition buildView :: "Channel list \<Rightarrow> (ShortChannelID \<rightharpoonup> Amount)" where
  "buildView channels =
     fold (\<lambda>channel subjectiveChanView.
             subjectiveChanView(NewShortChanIDFromInt (ChanId channel) \<mapsto> Capacity channel))
       channels Map.empty"

section \<open>Invalid channels (main.go, lines 95 to 127)\<close>

text \<open>One iteration of the loop over the subjective view.\<close>

fun checkChannel ::
  "LndClient \<Rightarrow> ShortChannelID \<times> Amount \<Rightarrow> World \<times> ShortChannelID set
     \<Rightarrow> World \<times> ShortChannelID set" where
  "checkChannel lndClient (cid, subjectiveSize) (w, invalidChannels) =
     (let w1 = rpc (GetChanInfoCall (ToUint64 cid)) w in
      case GetChanInfo lndClient (ToUint64 cid) of
        Inl err \<Rightarrow>
          (Printf ''unable to obtain graph channel for cid(%v): %v'' [CidArg cid, ErrArg err] w1,
           insert cid invalidChannels)
      | Inr graphChan \<Rightarrow>
          if EdgeCapacity graphChan \<noteq> subjectiveSize then
            (let w2 = Printf ''**** FAKE CHANNEL FOUND ****'' [] w1;
                 w3 = Printf ''CID: %v'' [] w2;
                 w4 = Printf ''Actual channel value: %v'' [Int64Arg (EdgeCapacity graphChan)] w3;
                 w5 = Printf ''Subjective channel value: %v'' [AmountArg subjectiveSize] w4;
                 w6 = Printf ''****************************'' [] w5
             in (w6, insert cid invalidChannels))
          else (w1, invalidChannels))"

definition detectInvalid ::
  "LndClient \<Rightarrow> (ShortChannelID \<rightharpoonup> Amount) \<Rightarrow> ShortChannelID list \<Rightarrow> World
     \<Rightarrow> World \<times> ShortChannelID set" where
  "detectInvalid lndClient subjectiveChanView ks w =
     fold (checkChannel lndClient) (rangeMap subjectiveChanView ks) (w, {})"

section \<open>Loss per channel and in total (main.go, lines 156 to 197)\<close>

text \<open>\<open>m[k] += d\<close>: a missing key reads as the zero value.\<close>

definition addTo :: "('k \<rightharpoonup> Amount) \<Rightarrow> 'k \<Rightarrow> Amount \<Rightarrow> ('k \<rightharpoonup> Amount)" where
  "addTo m k d = m(k \<mapsto> (case m k of None \<Rightarrow> 0 | Some v \<Rightarrow> v) + d)"

definition forwardStep ::
  "ShortChannelID set \<Rightarrow> ForwardingEvent \<Rightarrow> (ShortChannelID \<rightharpoonup> Amount)
     \<Rightarrow> (ShortChannelID \<rightharpoonup> Amount)" where
  "forwardStep invalidChannels fwdEvent chanForwardHistory =
     (let cidIn = NewShortChanIDFromInt (ChanIdIn fwdEvent);
          cidOut = NewShortChanIDFromInt (ChanIdOut fwdEvent);
          incomingInvalidChan = (cidIn \<in> invalidChannels);
          outgoingInvalidChan = (cidOut \<in> invalidChannels)
      in if \<not> (incomingInvalidChan \<or> outgoingInvalidChan) then chanForwardHistory
         else addTo (addTo chanForwardHistory cidIn (- (AmtIn fwdEvent - Fee fwdEvent)))
                cidOut (AmtOut fwdEvent))"

definition replayForwards ::
  "ShortChannelID set \<Rightarrow> ForwardingEvent list \<Rightarrow> (ShortChannelID \<rightharpoonup> Amount)" where
  "replayForwards invalidChannels forwardingEvents =
     fold (forwardStep invalidChannels) forwardingEvents Map.empty"

fun reportLoss :: "ShortChannelID \<times> Amount \<Rightarrow> World \<times> Amount \<Rightarrow> World \<times> Amount" where
  "reportLoss (chanID, amtLost) (w, totalLoss) =
     (Printf ''FakeChannel(%v) resulted in loss of: %v'' [CidArg chanID, AmountArg amtLost] w,
      totalLoss + amtLost)"

definition sumLosses ::
  "(ShortChannelID \<rightharpoonup> Amount) \<Rightarrow> ShortChannelID list \<Rightarrow> World \<Rightarrow> World \<times> Amount" where
  "sumLosses chanForwardHistory ks w =
     fold reportLoss (rangeMap chanForwardHistory ks) (w, 0)"

section \<open>The program\<close>

text \<open>
  How a run ends: \<open>log.Fatalf\<close> logs and exits with status 1; the early return reports
  that the node is not affected; otherwise the run reaches the last line, having computed
  \<open>invalidChannels\<close>, \<open>chanForwardHistory\<close> and \<open>totalLoss\<close>.
\<close>

datatype Outcome =
    Aborted
  | NotAffected
  | Affected "ShortChannelID set" "ShortChannelID \<rightharpoonup> Amount" Amount

text \<open>
  \<open>main\<close>, from the result of \<open>lndclient.NewBasicClient\<close> and the orders in which the
  two loops over maps visit their keys.
\<close>

definition main ::
  "error + LndClient \<Rightarrow> ShortChannelID list \<Rightarrow> ShortChannelID list \<Rightarrow> World \<times> Outcome" where
  "main newBasicClient viewOrder historyOrder =
     (let w0 = \<lparr>logged = [], rpcs = []\<rparr> in
      case newBasicClient of
        Inl err \<Rightarrow> (Printf ''unable to create client: %v'' [ErrArg err] w0, Aborted)
      | Inr lndClient \<Rightarrow>
          (let w1 = rpc ListChannelsCall w0 in
           case ListChannels lndClient of
             Inl err \<Rightarrow> (Printf ''unable to obtain channels: %v'' [ErrArg err] w1, Aborted)
           | Inr channels \<Rightarrow>
               (let w2 = Printf ''Obtaining candidate set of invalidate channels...'' [] w1;
                    subjectiveChanView = buildView channels;
                    w3 = Printf ''Filtering out valid channels...'' [] w2;
                    (w4, invalidChannels) =
                       detectInvalid lndClient subjectiveChanView viewOrder w3;
                    w5 = Printf ''Num invalid channels found: %v''
                           [LenArg (card invalidChannels)] w4
                in if card invalidChannels = 0 then
                     (Printf ''Your node was not affected by CVE-2019-12999!'' [] w5,
                      NotAffected)
                   else
                     (let w6 = Printf
                            ''Quantifying amount lost due to forwards over invalid channels...''
                            [] w5;
                          w7 = rpc ForwardingHistoryCall w6
                      in case ForwardingHistory lndClient of
                           Inl err \<Rightarrow>
                             (Printf ''unable to obtain forwarding history: %v'' [ErrArg err] w7,
                              Aborted)
                         | Inr forwardingEvents \<Rightarrow>
                             (let chanForwardHistory =
                                    replayForwards invalidChannels forwardingEvents;
                                  (w8, totalLoss) =
                                    sumLosses chanForwardHistory historyOrder w7
                              in (Printf ''Amount lost: %v'' [AmountArg totalLoss] w8,
                                  Affected invalidChannels chanForwardHistory totalLoss))))))"

section \<open>Example nodes\<close>

text \<open>
  Two channels, \<open>chanA\<close> and \<open>chanB\<close>, two forwards between them, and four nodes
  that list \<open>chanA\<close> with a capacity of 500000: the graph does not know it, knows it
  with another capacity, knows it with the same capacity; the fourth node lists both
  channels and its graph knows \<open>chanB\<close> only.
\<close>

definition chanA :: ShortChannelID where
  "chanA = NewShortChanIDFromInt 1"

definition chanB :: ShortChannelID where
  "chanB = NewShortChanIDFromInt 2"

definition forwardAB :: ForwardingEvent where
  "forwardAB = \<lparr>ChanIdIn = 1, ChanIdOut = 2, AmtIn = 100000, AmtOut = 99900, Fee = 100\<rparr>"

definition forwardBA :: ForwardingEvent where
  "forwardBA = \<lparr>ChanIdIn = 2, ChanIdOut = 1, AmtIn = 5000, AmtOut = 4990, Fee = 9\<rparr>"

definition absentClient :: LndClient where
  "absentClient =
     \<lparr>ListChannels = Inr [\<lparr>ChanId = 1, Capacity = 500000\<rparr>],
      GetChanInfo = (\<lambda>chanId. Inl ''edge not found''),
      ForwardingHistory = Inr [forwardAB]\<rparr>"

definition mismatchClient :: LndClient where
  "mismatchClient =
     \<lparr>ListChannels = Inr [\<lparr>ChanId = 1, Capacity = 500000\<rparr>],
      GetChanInfo = (\<lambda>chanId. Inr \<lparr>EdgeCapacity = 400000\<rparr>),
      ForwardingHistory = Inr [forwardAB]\<rparr>"

definition matchClient :: LndClient where
  "matchClient =
     \<lparr>ListChannels = Inr [\<lparr>ChanId = 1, Capacity = 500000\<rparr>],
      GetChanInfo = (\<lambda>chanId. Inr \<lparr>EdgeCapacity = 500000\<rparr>),
      ForwardingHistory = Inr [forwardAB]\<rparr>"

definition mixedClient :: LndClient where
  "mixedClient =
     \<lparr>ListChannels =
        Inr [\<lparr>ChanId = 1, Capacity = 500000\<rparr>, \<lparr>ChanId = 2, Capacity = 300000\<rparr>],
      GetChanInfo =
        (\<lambda>chanId. if chanId = 2 then Inr \<lparr>EdgeCapacity = 300000\<rparr>
                  else Inl ''edge not found''),
      ForwardingHistory = Inr [forwardAB]\<rparr>"

definition world0 :: World where
  "world0 = \<lparr>logged = [], rpcs = []\<rparr>"

declare checkChannel.simps [simp del]

section \<open>Channel identifiers\<close>

lemma mask24: "(0xFFFFFF :: 32 word) = mask 24"
  by (simp add: mask_eq_exp_minus_1)

lemma ToUint64_NewShortChanIDFromInt: "ToUint64 (NewShortChanIDFromInt x) = x"
proof (rule bit_eqI)
  fix n :: nat
  consider "n < 16" | "16 \<le> n" "n < 40" | "40 \<le> n"
    by linarith
  then show "bit (ToUint64 (NewShortChanIDFromInt x)) n = bit x n"
  proof cases
    case 1
    then show ?thesis
      by (auto simp add: ToUint64_def NewShortChanIDFromInt_def mask24 bit_simps)
  next
    case 2
    then show ?thesis
      by (auto simp add: ToUint64_def NewShortChanIDFromInt_def mask24 bit_simps)
  next
    case 3
    then show ?thesis
      by (auto simp add: ToUint64_def NewShortChanIDFromInt_def mask24 bit_simps
          dest: bit_imp_le_length)
  qed
qed

lemma NewShortChanIDFromInt_eq_iff:
  "NewShortChanIDFromInt x = NewShortChanIDFromInt y \<longleftrightarrow> x = y"
  by (metis ToUint64_NewShortChanIDFromInt)

lemma chanA_neq_chanB: "chanA \<noteq> chanB" "chanB \<noteq> chanA"
  by (simp_all add: chanA_def chanB_def NewShortChanIDFromInt_eq_iff)

lemma ToUint64_chan: "ToUint64 chanA = 1" "ToUint64 chanB = 2"
  by (simp_all add: chanA_def chanB_def ToUint64_NewShortChanIDFromInt)

text \<open>
  C9. For every 64-bit channel identifier, converting the raw integer to the triple
  (block height, transaction index, output index) and back gives the original integer.
\<close>

theorem C9_chanid_round_trip: "ToUint64 (NewShortChanIDFromInt chanID) = chanID"
  by (rule ToUint64_NewShortChanIDFromInt)

section \<open>The subjective view\<close>

lemma buildView_one: "buildView [\<lparr>ChanId = 1, Capacity = c\<rparr>] = [chanA \<mapsto> c]"
  by (simp add: buildView_def chanA_def)

lemma buildView_two:
  "buildView [\<lparr>ChanId = 1, Capacity = c\<rparr>, \<lparr>ChanId = 2, Capacity = d\<rparr>]
     = [chanA \<mapsto> c, chanB \<mapsto> d]"
  by (simp add: buildView_def chanA_def chanB_def)

lemma fold_view_other:
  assumes "\<forall>c\<in>set after. ChanId c \<noteq> x"
  shows "fold (\<lambda>channel subjectiveChanView.
             subjectiveChanView(NewShortChanIDFromInt (ChanId channel) \<mapsto> Capacity channel))
           after m (NewShortChanIDFromInt x) = m (NewShortChanIDFromInt x)"
  using assms
  by (induction after arbitrary: m) (auto simp add: NewShortChanIDFromInt_eq_iff)

text \<open>
  C10. When a listing names the same channel identifier more than once, the subjective
  view holds, under that identifier, the capacity of the last channel listed with it: for
  a channel of the listing after which no channel has the same identifier, the view maps
  the identifier to that channel's capacity. (A map holds one entry per key.)
\<close>

theorem C10_last_write_wins:
  assumes "channels = before @ channel # after"
    and "\<forall>c\<in>set after. ChanId c \<noteq> ChanId channel"
  shows "buildView channels (NewShortChanIDFromInt (ChanId channel)) = Some (Capacity channel)"
  using assms(2) unfolding buildView_def assms(1)
  by (simp add: fold_view_other)

theorem C10_last_write_wins_witness:
  "buildView [\<lparr>ChanId = 1, Capacity = 500000\<rparr>, \<lparr>ChanId = 2, Capacity = 300000\<rparr>,
              \<lparr>ChanId = 1, Capacity = 600000\<rparr>] chanA = Some 600000"
  using C10_last_write_wins
    [of "[\<lparr>ChanId = 1, Capacity = 500000\<rparr>, \<lparr>ChanId = 2, Capacity = 300000\<rparr>,
          \<lparr>ChanId = 1, Capacity = 600000\<rparr>]"
        "[\<lparr>ChanId = 1, Capacity = 500000\<rparr>, \<lparr>ChanId = 2, Capacity = 300000\<rparr>]"
        "\<lparr>ChanId = 1, Capacity = 600000\<rparr>" "[]"]
  by (simp add: chanA_def)

section \<open>Ranging over a map\<close>

lemma rangeMap_Nil: "rangeMap m [] = []"
  by (simp add: rangeMap_def List.map_filter_simps)

lemma rangeMap_Cons:
  "rangeMap m (k # ks) =
     (case m k of None \<Rightarrow> rangeMap m ks | Some v \<Rightarrow> (k, v) # rangeMap m ks)"
  by (simp add: rangeMap_def List.map_filter_simps split: option.splits)

lemma set_rangeMap: "set (rangeMap m ks) = {(k, v). k \<in> set ks \<and> m k = Some v}"
  by (induction ks) (auto simp add: rangeMap_Nil rangeMap_Cons split: option.splits)

lemma rangeMap_snd:
  "map snd (rangeMap m ks) = map (\<lambda>k. the (m k)) (filter (\<lambda>k. k \<in> dom m) ks)"
  by (induction ks) (auto simp add: rangeMap_Nil rangeMap_Cons split: option.splits)

lemma Printf_simps:
  "logged (Printf f a w) = logged w @ [(f, a)]" "rpcs (Printf f a w) = rpcs w"
  by (simp_all add: Printf_def)

lemma rpc_simps:
  "logged (rpc c w) = logged w" "rpcs (rpc c w) = rpcs w @ [c]"
  by (simp_all add: rpc_def)

section \<open>The invalid channels\<close>

lemma snd_checkChannel:
  "snd (checkChannel c (cid, sz) (w, S)) =
     (if (case GetChanInfo c (ToUint64 cid) of Inl err \<Rightarrow> True
          | Inr graphChan \<Rightarrow> EdgeCapacity graphChan \<noteq> sz)
      then insert cid S else S)"
  by (simp add: checkChannel.simps Let_def split: sum.splits)

lemma rpcs_checkChannel:
  "rpcs (fst (checkChannel c (cid, sz) (w, S))) = rpcs w @ [GetChanInfoCall (ToUint64 cid)]"
  by (simp add: checkChannel.simps Let_def Printf_simps rpc_simps split: sum.splits)

lemma logged_checkChannel_mono:
  "set (logged w) \<subseteq> set (logged (fst (checkChannel c (cid, sz) (w, S))))"
  by (auto simp add: checkChannel.simps Let_def Printf_simps rpc_simps split: sum.splits)

lemma logged_checkChannel_failure:
  "GetChanInfo c (ToUint64 cid) = Inl err \<Longrightarrow>
     (''unable to obtain graph channel for cid(%v): %v'', [CidArg cid, ErrArg err])
       \<in> set (logged (fst (checkChannel c (cid, sz) (w, S))))"
  by (simp add: checkChannel.simps Let_def Printf_simps rpc_simps)

lemma logged_checkChannel_formats:
  "fst ` set (logged (fst (checkChannel c (cid, sz) (w, S)))) \<subseteq>
     fst ` set (logged w) \<union>
       {''unable to obtain graph channel for cid(%v): %v'', ''**** FAKE CHANNEL FOUND ****'',
        ''CID: %v'', ''Actual channel value: %v'', ''Subjective channel value: %v'',
        ''****************************''}"
  by (auto simp add: checkChannel.simps Let_def Printf_simps rpc_simps split: sum.splits)

lemma snd_fold_checkChannel:
  "snd (fold (checkChannel c) kvs (w, S)) =
     S \<union> {cid. \<exists>sz. (cid, sz) \<in> set kvs \<and>
               (case GetChanInfo c (ToUint64 cid) of Inl err \<Rightarrow> True
                | Inr graphChan \<Rightarrow> EdgeCapacity graphChan \<noteq> sz)}"
proof (induction kvs arbitrary: w S)
  case Nil
  then show ?case by simp
next
  case (Cons kv kvs)
  obtain cid sz where kv: "kv = (cid, sz)" by (cases kv)
  obtain w' S' where step: "checkChannel c (cid, sz) (w, S) = (w', S')"
    by (cases "checkChannel c (cid, sz) (w, S)")
  have S': "S' = (if (case GetChanInfo c (ToUint64 cid) of Inl err \<Rightarrow> True
          | Inr graphChan \<Rightarrow> EdgeCapacity graphChan \<noteq> sz)
      then insert cid S else S)"
    using snd_checkChannel [of c cid sz w S] step by simp
  show ?case
    unfolding kv fold_Cons comp_apply step Cons.IH S'
    by auto
qed

lemma rpcs_fold_checkChannel:
  "rpcs (fst (fold (checkChannel c) kvs (w, S))) =
     rpcs w @ map (\<lambda>kv. GetChanInfoCall (ToUint64 (fst kv))) kvs"
proof (induction kvs arbitrary: w S)
  case Nil
  then show ?case by simp
next
  case (Cons kv kvs)
  obtain cid sz where kv: "kv = (cid, sz)" by (cases kv)
  obtain w' S' where step: "checkChannel c (cid, sz) (w, S) = (w', S')"
    by (cases "checkChannel c (cid, sz) (w, S)")
  have w': "rpcs w' = rpcs w @ [GetChanInfoCall (ToUint64 cid)]"
    using rpcs_checkChannel [of c cid sz w S] step by simp
  show ?case
    unfolding kv fold_Cons comp_apply step Cons.IH w'
    by simp
qed

lemma logged_fold_checkChannel_mono:
  "set (logged w) \<subseteq> set (logged (fst (fold (checkChannel c) kvs (w, S))))"
proof (induction kvs arbitrary: w S)
  case Nil
  then show ?case by simp
next
  case (Cons kv kvs)
  obtain cid sz where kv: "kv = (cid, sz)" by (cases kv)
  obtain w' S' where step: "checkChannel c (cid, sz) (w, S) = (w', S')"
    by (cases "checkChannel c (cid, sz) (w, S)")
  have "set (logged w) \<subseteq> set (logged w')"
    using logged_checkChannel_mono [of w c cid sz S] step by simp
  also have "\<dots> \<subseteq> set (logged (fst (fold (checkChannel c) kvs (w', S'))))"
    by (rule Cons.IH)
  finally show ?case
    by (simp add: kv step)
qed

lemma logged_fold_checkChannel_failure:
  assumes "(cid, sz) \<in> set kvs" and "GetChanInfo c (ToUint64 cid) = Inl err"
  shows "(''unable to obtain graph channel for cid(%v): %v'', [CidArg cid, ErrArg err])
       \<in> set (logged (fst (fold (checkChannel c) kvs (w, S))))"
  using assms(1)
proof (induction kvs arbitrary: w S)
  case Nil
  then show ?case by simp
next
  case (Cons kv kvs)
  obtain cid' sz' where kv: "kv = (cid', sz')" by (cases kv)
  obtain w' S' where step: "checkChannel c (cid', sz') (w, S) = (w', S')"
    by (cases "checkChannel c (cid', sz') (w, S)")
  show ?case
  proof (cases "(cid, sz) = kv")
    case True
    then have "(''unable to obtain graph channel for cid(%v): %v'', [CidArg cid, ErrArg err])
       \<in> set (logged w')"
      using logged_checkChannel_failure [OF assms(2), of sz w S] step kv by simp
    then show ?thesis
      using logged_fold_checkChannel_mono [of w' c kvs S'] by (auto simp add: kv step)
  next
    case False
    then have "(cid, sz) \<in> set kvs" using Cons.prems by auto
    then show ?thesis
      using Cons.IH [of w' S'] by (simp add: kv step)
  qed
qed

lemma logged_fold_checkChannel_formats:
  "fst ` set (logged (fst (fold (checkChannel c) kvs (w, S)))) \<subseteq>
     fst ` set (logged w) \<union>
       {''unable to obtain graph channel for cid(%v): %v'', ''**** FAKE CHANNEL FOUND ****'',
        ''CID: %v'', ''Actual channel value: %v'', ''Subjective channel value: %v'',
        ''****************************''}"
proof (induction kvs arbitrary: w S)
  case Nil
  then show ?case by auto
next
  case (Cons kv kvs)
  obtain cid sz where kv: "kv = (cid, sz)" by (cases kv)
  obtain w' S' where step: "checkChannel c (cid, sz) (w, S) = (w', S')"
    by (cases "checkChannel c (cid, sz) (w, S)")
  have a: "fst ` set (logged w') \<subseteq>
     fst ` set (logged w) \<union>
       {''unable to obtain graph channel for cid(%v): %v'', ''**** FAKE CHANNEL FOUND ****'',
        ''CID: %v'', ''Actual channel value: %v'', ''Subjective channel value: %v'',
        ''****************************''}"
    using logged_checkChannel_formats [of c cid sz w S] step by simp
  show ?case
    unfolding kv fold_Cons comp_apply step
    using Cons.IH [of w' S'] a by blast
qed

lemma snd_detectInvalid:
  "snd (detectInvalid c view ks w) =
     {cid. \<exists>sz. (cid, sz) \<in> set (rangeMap view ks) \<and>
               (case GetChanInfo c (ToUint64 cid) of Inl err \<Rightarrow> True
                | Inr graphChan \<Rightarrow> EdgeCapacity graphChan \<noteq> sz)}"
  by (simp add: detectInvalid_def snd_fold_checkChannel)

lemma snd_detectInvalid_world:
  "snd (detectInvalid c view ks w) = snd (detectInvalid c view ks w')"
  by (simp add: snd_detectInvalid)

lemma finite_detectInvalid: "finite (snd (detectInvalid c view ks w))"
proof -
  have "snd (detectInvalid c view ks w) \<subseteq> set ks"
    by (auto simp add: snd_detectInvalid set_rangeMap)
  then show ?thesis
    by (rule finite_subset) simp
qed

lemma rpcs_detectInvalid:
  "rpcs (fst (detectInvalid c view ks w)) =
     rpcs w @ map (\<lambda>kv. GetChanInfoCall (ToUint64 (fst kv))) (rangeMap view ks)"
  by (simp add: detectInvalid_def rpcs_fold_checkChannel)

text \<open>
  C4. Whatever the subjective view, the node's answers and the order of the loop, a
  channel is in the invalid set exactly when it is a channel of the view and the query
  for it fails (not found is such a failure) or returns a capacity other than the one of
  the view. The condition reads the view and the answer of that channel alone.
\<close>

theorem C4_invalid_iff:
  assumes "rangeOrder subjectiveChanView ks"
  shows "cid \<in> snd (detectInvalid lndClient subjectiveChanView ks w) \<longleftrightarrow>
     (\<exists>subjectiveSize. subjectiveChanView cid = Some subjectiveSize \<and>
        (case GetChanInfo lndClient (ToUint64 cid) of
           Inl err \<Rightarrow> True
         | Inr graphChan \<Rightarrow> EdgeCapacity graphChan \<noteq> subjectiveSize))"
  using assms
  by (auto simp add: snd_detectInvalid set_rangeMap rangeOrder_def)

theorem C4_invalid_iff_witness:
  "rangeOrder [chanA \<mapsto> 500000, chanB \<mapsto> (300000 :: Amount)] [chanB, chanA]
   \<and> chanA \<in> snd (detectInvalid mixedClient [chanA \<mapsto> 500000, chanB \<mapsto> 300000]
                    [chanB, chanA] world0)
   \<and> chanB \<notin> snd (detectInvalid mixedClient [chanA \<mapsto> 500000, chanB \<mapsto> 300000]
                    [chanB, chanA] world0)"
proof -
  have r: "rangeOrder [chanA \<mapsto> 500000, chanB \<mapsto> (300000 :: Amount)] [chanB, chanA]"
    by (auto simp add: rangeOrder_def chanA_neq_chanB)
  show ?thesis
    using r C4_invalid_iff [OF r, of chanA mixedClient world0]
      C4_invalid_iff [OF r, of chanB mixedClient world0]
    by (simp add: mixedClient_def ToUint64_chan chanA_neq_chanB)
qed

text \<open>
  C6. The specification asks that the record logged for a capacity mismatch holds the
  channel identifier, the authoritative capacity and the subjective capacity. On the node whose
  graph gives \<open>chanA\<close> the capacity 400000 against 500000 in the view, the five lines
  logged hold the two capacities; the line \<open>CID: %v\<close> is logged without an argument,
  so that no line holds the identifier.
\<close>

theorem C6_mismatch_lines:
  "detectInvalid mismatchClient [chanA \<mapsto> 500000] [chanA] world0 =
     (\<lparr>logged =
         [(''**** FAKE CHANNEL FOUND ****'', []),
          (''CID: %v'', []),
          (''Actual channel value: %v'', [Int64Arg 400000]),
          (''Subjective channel value: %v'', [AmountArg 500000]),
          (''****************************'', [])],
       rpcs = [GetChanInfoCall 1]\<rparr>,
      {chanA})"
  by (simp add: mismatchClient_def detectInvalid_def rangeMap_Nil world0_def
      rangeMap_Cons ToUint64_chan Printf_def rpc_def checkChannel.simps)

section \<open>The loss ledger\<close>

lemma addTo_commute: "addTo (addTo m k d) k' d' = addTo (addTo m k' d') k d"
  by (rule ext) (simp add: addTo_def)

lemma forwardStep_commute:
  "forwardStep I e1 (forwardStep I e2 m) = forwardStep I e2 (forwardStep I e1 m)"
  by (simp add: forwardStep_def Let_def addTo_commute)

lemma dom_addTo: "dom (addTo m k d) = insert k (dom m)"
  by (simp add: addTo_def)

lemma finite_dom_addTo: "finite (dom m) \<Longrightarrow> finite (dom (addTo m k d))"
  by (simp add: dom_addTo)

lemma finite_dom_forwardStep: "finite (dom m) \<Longrightarrow> finite (dom (forwardStep I e m))"
  by (simp add: forwardStep_def Let_def dom_addTo)

text \<open>The sum of the entries of a ledger after \<open>m[k] += d\<close>.\<close>

lemma sum_addTo:
  assumes "finite (dom m)"
  shows "(\<Sum>c\<in>dom (addTo m k d). the (addTo m k d c)) = (\<Sum>c\<in>dom m. the (m c)) + d"
proof (cases "k \<in> dom m")
  case True
  have "(\<Sum>c\<in>dom (addTo m k d). the (addTo m k d c))
      = (\<Sum>c\<in>dom m. the (m c) + (if k = c then d else 0))"
    using True by (auto simp add: dom_addTo insert_absorb addTo_def intro!: sum.cong)
  also have "\<dots> = (\<Sum>c\<in>dom m. the (m c)) + (\<Sum>c\<in>dom m. if k = c then d else 0)"
    by (rule sum.distrib)
  also have "(\<Sum>c\<in>dom m. if k = c then d else 0) = d"
    using assms True by (simp add: sum.delta')
  finally show ?thesis .
next
  case False
  then have n: "m k = None" by auto
  have "(\<Sum>c\<in>dom (addTo m k d). the (addTo m k d c))
      = the (addTo m k d k) + (\<Sum>c\<in>dom m. the (addTo m k d c))"
    using assms False by (simp add: dom_addTo)
  also have "(\<Sum>c\<in>dom m. the (addTo m k d c)) = (\<Sum>c\<in>dom m. the (m c))"
    using False by (intro sum.cong) (auto simp add: addTo_def)
  also have "the (addTo m k d k) = d"
    using n by (simp add: addTo_def)
  finally show ?thesis by (simp add: algebra_simps)
qed

lemma sum_forwardStep:
  assumes "finite (dom m)" and "Fee e = AmtIn e - AmtOut e"
  shows "(\<Sum>c\<in>dom (forwardStep I e m). the (forwardStep I e m c)) = (\<Sum>c\<in>dom m. the (m c))"
  using assms by (simp add: forwardStep_def Let_def sum_addTo finite_dom_addTo)

lemma sum_fold_forwardStep:
  assumes "finite (dom m)" and "\<forall>e\<in>set evs. Fee e = AmtIn e - AmtOut e"
  shows "(\<Sum>c\<in>dom (fold (forwardStep I) evs m). the (fold (forwardStep I) evs m c))
           = (\<Sum>c\<in>dom m. the (m c))"
  using assms
proof (induction evs arbitrary: m)
  case Nil
  then show ?case by simp
next
  case (Cons e evs)
  then show ?case
    by (simp add: finite_dom_forwardStep sum_forwardStep)
qed

text \<open>The total does not depend on the order in which the loop visits the ledger.\<close>

lemma fold_reportLoss_snd:
  "snd (fold reportLoss kvs (w, t)) = t + sum_list (map snd kvs)"
  by (induction kvs arbitrary: w t) (auto simp add: algebra_simps)

lemma sumLosses_total:
  assumes "rangeOrder m ks"
  shows "snd (sumLosses m ks w) = (\<Sum>c\<in>dom m. the (m c))"
proof -
  have f: "filter (\<lambda>k. k \<in> dom m) ks = ks"
    using assms by (auto simp add: rangeOrder_def)
  have "snd (sumLosses m ks w) = sum_list (map (\<lambda>k. the (m k)) ks)"
    by (simp add: sumLosses_def fold_reportLoss_snd rangeMap_snd f)
  also have "\<dots> = (\<Sum>c\<in>set ks. the (m c))"
    using assms by (simp add: rangeOrder_def sum_list_distinct_conv_sum_set)
  finally show ?thesis using assms by (simp add: rangeOrder_def)
qed

lemma fold_reportLoss_world:
  "rpcs (fst (fold reportLoss kvs (w, t))) = rpcs w
     \<and> set (logged w) \<subseteq> set (logged (fst (fold reportLoss kvs (w, t))))"
proof (induction kvs arbitrary: w t)
  case Nil
  then show ?case by simp
next
  case (Cons kv kvs)
  obtain cid amt where kv: "kv = (cid, amt)" by (cases kv)
  show ?case
    using Cons.IH [of "Printf ''FakeChannel(%v) resulted in loss of: %v''
                         [CidArg cid, AmountArg amt] w" "t + amt"]
    by (auto simp add: kv Printf_simps)
qed

lemma rpcs_sumLosses: "rpcs (fst (sumLosses m ks w)) = rpcs w"
  by (simp add: sumLosses_def fold_reportLoss_world)

lemma logged_sumLosses_mono: "set (logged w) \<subseteq> set (logged (fst (sumLosses m ks w)))"
  by (simp add: sumLosses_def fold_reportLoss_world)

lemma logged_sumLosses_in: "l \<in> set (logged w) \<Longrightarrow> l \<in> set (logged (fst (sumLosses m ks w)))"
  using logged_sumLosses_mono by blast

lemma replay_forwardAB:
  "replayForwards {chanA} [forwardAB] = [chanA \<mapsto> - 99900, chanB \<mapsto> 99900]"
  by (simp add: replayForwards_def forwardStep_def addTo_def forwardAB_def
      chanA_def chanB_def NewShortChanIDFromInt_eq_iff)

lemma dom_replay_two:
  "dom (replayForwards {chanA} [forwardAB, forwardBA]) = {chanA, chanB}"
  "dom (replayForwards {chanA} [forwardBA, forwardAB]) = {chanA, chanB}"
  by (simp_all add: replayForwards_def forwardStep_def Let_def dom_addTo forwardAB_def
      forwardBA_def chanA_def chanB_def NewShortChanIDFromInt_eq_iff insert_commute)

text \<open>
  C2. The specification asks that every key of the loss ledger is an invalid channel. With
  \<open>chanA\<close> the only invalid channel, the forward that enters through \<open>chanA\<close> and
  leaves through \<open>chanB\<close> gives the valid channel \<open>chanB\<close> an entry: an event with
  one invalid leg adjusts the entries of both of its legs.
\<close>

theorem C2_valid_channel_in_ledger:
  "chanB \<notin> {chanA} \<and> replayForwards {chanA} [forwardAB] chanB = Some 99900"
  by (simp add: replay_forwardAB chanA_neq_chanB)

text \<open>
  C3. When the fee of every forwarding event is its amount in minus its amount out, the
  total loss the program computes is 0, for every set of invalid channels (empty or not)
  and every order in which the last loop visits the ledger. The hypothesis is stated on
  64-bit words; it holds whenever the equation holds on the unsigned values.
\<close>

theorem C3_total_loss_zero:
  assumes "\<forall>e\<in>set forwardingEvents. Fee e = AmtIn e - AmtOut e"
    and "rangeOrder (replayForwards invalidChannels forwardingEvents) ks"
  shows "snd (sumLosses (replayForwards invalidChannels forwardingEvents) ks w) = 0"
proof -
  have "(\<Sum>c\<in>dom (replayForwards invalidChannels forwardingEvents).
           the (replayForwards invalidChannels forwardingEvents c)) = 0"
    unfolding replayForwards_def using assms(1)
    by (subst sum_fold_forwardStep) simp_all
  then show ?thesis
    using assms(2) by (simp add: sumLosses_total)
qed

theorem C3_total_loss_zero_witness:
  "Fee forwardAB = AmtIn forwardAB - AmtOut forwardAB
   \<and> rangeOrder (replayForwards {chanA} [forwardAB]) [chanA, chanB]
   \<and> snd (sumLosses (replayForwards {chanA} [forwardAB]) [chanA, chanB] world0) = 0"
proof -
  have f: "\<forall>e\<in>set [forwardAB]. Fee e = AmtIn e - AmtOut e"
    by (simp add: forwardAB_def)
  have r: "rangeOrder (replayForwards {chanA} [forwardAB]) [chanA, chanB]"
    by (auto simp add: replay_forwardAB rangeOrder_def chanA_neq_chanB)
  from C3_total_loss_zero [OF f r] f r show ?thesis by simp
qed

text \<open>
  C7. Replaying any permutation of the forwarding events gives the same loss ledger and
  the same total loss, whatever the orders in which the last loop visits the two ledgers.
\<close>

theorem C7_replay_permutation:
  assumes "mset forwardingEvents = mset forwardingEvents'"
    and "rangeOrder (replayForwards invalidChannels forwardingEvents) ks"
    and "rangeOrder (replayForwards invalidChannels forwardingEvents') ks'"
  shows "replayForwards invalidChannels forwardingEvents
           = replayForwards invalidChannels forwardingEvents'
       \<and> snd (sumLosses (replayForwards invalidChannels forwardingEvents) ks w)
           = snd (sumLosses (replayForwards invalidChannels forwardingEvents') ks' w')"
proof -
  have "fold (forwardStep invalidChannels) forwardingEvents
          = fold (forwardStep invalidChannels) forwardingEvents'"
    using assms(1) by (intro fold_multiset_equiv) (auto simp add: fun_eq_iff forwardStep_commute)
  then have eq: "replayForwards invalidChannels forwardingEvents
           = replayForwards invalidChannels forwardingEvents'"
    by (simp add: replayForwards_def)
  show ?thesis
    using assms(2,3) eq by (simp add: sumLosses_total)
qed

theorem C7_replay_permutation_witness:
  "mset [forwardAB, forwardBA] = mset [forwardBA, forwardAB]
   \<and> rangeOrder (replayForwards {chanA} [forwardAB, forwardBA]) [chanA, chanB]
   \<and> rangeOrder (replayForwards {chanA} [forwardBA, forwardAB]) [chanB, chanA]
   \<and> replayForwards {chanA} [forwardAB, forwardBA] = replayForwards {chanA} [forwardBA, forwardAB]
   \<and> snd (sumLosses (replayForwards {chanA} [forwardAB, forwardBA]) [chanA, chanB] world0)
       = snd (sumLosses (replayForwards {chanA} [forwardBA, forwardAB]) [chanB, chanA] world0)"
proof -
  have m: "mset [forwardAB, forwardBA] = mset [forwardBA, forwardAB]"
    by (simp add: add_mset_commute)
  have r: "rangeOrder (replayForwards {chanA} [forwardAB, forwardBA]) [chanA, chanB]"
    by (auto simp add: dom_replay_two rangeOrder_def chanA_neq_chanB)
  have r': "rangeOrder (replayForwards {chanA} [forwardBA, forwardAB]) [chanB, chanA]"
    by (auto simp add: dom_replay_two rangeOrder_def chanA_neq_chanB)
  from C7_replay_permutation [OF m r r', of world0 world0] m r r' show ?thesis by blast
qed

section \<open>Runs of the program\<close>

text \<open>The run after a successful listing, up to the count of invalid channels.\<close>

lemma main_listed:
  assumes "ListChannels lndClient = Inr channels"
    and "detectInvalid lndClient (buildView channels) viewOrder
           (Printf ''Filtering out valid channels...'' []
             (Printf ''Obtaining candidate set of invalidate channels...'' []
               (rpc ListChannelsCall \<lparr>logged = [], rpcs = []\<rparr>))) = (w4, invalidChannels)"
  shows "main (Inr lndClient) viewOrder historyOrder =
     (let w5 = Printf ''Num invalid channels found: %v'' [LenArg (card invalidChannels)] w4
      in if invalidChannels = {} then
           (Printf ''Your node was not affected by CVE-2019-12999!'' [] w5, NotAffected)
         else
           (let w7 = rpc ForwardingHistoryCall
                  (Printf ''Quantifying amount lost due to forwards over invalid channels...''
                     [] w5)
            in case ForwardingHistory lndClient of
                 Inl err \<Rightarrow>
                   (Printf ''unable to obtain forwarding history: %v'' [ErrArg err] w7, Aborted)
               | Inr forwardingEvents \<Rightarrow>
                   (Printf ''Amount lost: %v''
                      [AmountArg (snd (sumLosses (replayForwards invalidChannels forwardingEvents)
                                         historyOrder w7))]
                      (fst (sumLosses (replayForwards invalidChannels forwardingEvents)
                              historyOrder w7)),
                    Affected invalidChannels (replayForwards invalidChannels forwardingEvents)
                      (snd (sumLosses (replayForwards invalidChannels forwardingEvents)
                              historyOrder w7)))))"
proof -
  have "finite invalidChannels"
    using finite_detectInvalid [of lndClient "buildView channels" viewOrder] assms(2)
    by (metis snd_conv)
  then have c: "card invalidChannels = 0 \<longleftrightarrow> invalidChannels = {}"
    by simp
  show ?thesis
    by (simp add: main_def assms c Let_def case_prod_beta split: sum.splits)
qed

text \<open>The two fatal paths before the first channel is examined.\<close>

lemma main_no_client:
  "main (Inl err) viewOrder historyOrder =
     (\<lparr>logged = [(''unable to create client: %v'', [ErrArg err])], rpcs = []\<rparr>, Aborted)"
  by (simp add: main_def Printf_def)

lemma main_no_listing:
  "ListChannels lndClient = Inl err \<Longrightarrow>
   main (Inr lndClient) viewOrder historyOrder =
     (\<lparr>logged = [(''unable to obtain channels: %v'', [ErrArg err])],
       rpcs = [ListChannelsCall]\<rparr>, Aborted)"
  by (simp add: main_def Printf_def rpc_def)

lemma main_absent:
  "main (Inr absentClient) [chanA] [chanA, chanB] =
     (\<lparr>logged =
         [(''Obtaining candidate set of invalidate channels...'', []),
          (''Filtering out valid channels...'', []),
          (''unable to obtain graph channel for cid(%v): %v'',
           [CidArg chanA, ErrArg ''edge not found'']),
          (''Num invalid channels found: %v'', [LenArg 1]),
          (''Quantifying amount lost due to forwards over invalid channels...'', []),
          (''FakeChannel(%v) resulted in loss of: %v'', [CidArg chanA, AmountArg (- 99900)]),
          (''FakeChannel(%v) resulted in loss of: %v'', [CidArg chanB, AmountArg 99900]),
          (''Amount lost: %v'', [AmountArg 0])],
       rpcs = [ListChannelsCall, GetChanInfoCall 1, ForwardingHistoryCall]\<rparr>,
      Affected {chanA} [chanA \<mapsto> - 99900, chanB \<mapsto> 99900] 0)"
  by (simp add: main_def absentClient_def buildView_one detectInvalid_def rangeMap_Nil
      rangeMap_Cons ToUint64_chan Printf_def rpc_def replay_forwardAB sumLosses_def
      chanA_neq_chanB checkChannel.simps)

lemma main_match:
  "main (Inr matchClient) [chanA] [] =
     (\<lparr>logged =
         [(''Obtaining candidate set of invalidate channels...'', []),
          (''Filtering out valid channels...'', []),
          (''Num invalid channels found: %v'', [LenArg 0]),
          (''Your node was not affected by CVE-2019-12999!'', [])],
       rpcs = [ListChannelsCall, GetChanInfoCall 1]\<rparr>,
      NotAffected)"
  by (simp add: main_def matchClient_def buildView_one detectInvalid_def rangeMap_Nil
      rangeMap_Cons ToUint64_chan Printf_def rpc_def checkChannel.simps)

text \<open>
  C1. The end-to-end scenario of the specification: the view is \<open>{chanA: 500000}\<close>, the graph does not know
  \<open>chanA\<close>, and the one forward enters through \<open>chanA\<close> (amount in 100000, fee 100)
  and leaves through \<open>chanB\<close> (amount out 99900). The invalid set is \<open>{chanA}\<close>, as
  expected; the ledger of the run also holds \<open>chanB\<close> with 99900 and the total is 0,
  where the specification expects the ledger \<open>{chanA: -99900}\<close> and the total -99900.
\<close>

theorem C1_end_to_end_run:
  "snd (main (Inr absentClient) [chanA] [chanA, chanB])
     = Affected {chanA} [chanA \<mapsto> - 99900, chanB \<mapsto> 99900] 0"
  by (simp add: main_absent)

text \<open>
  C5. In a run where the listing succeeds and no channel of the view is found invalid,
  the program returns through the early exit: the forwarding history is never requested,
  the last line logged is the one saying that the node is not affected, and no line
  about a loss (per channel or in total) is logged.
\<close>

theorem C5_not_affected:
  assumes "ListChannels lndClient = Inr channels"
    and "snd (detectInvalid lndClient (buildView channels) viewOrder w) = {}"
  shows "snd (main (Inr lndClient) viewOrder historyOrder) = NotAffected
    \<and> ForwardingHistoryCall \<notin> set (rpcs (fst (main (Inr lndClient) viewOrder historyOrder)))
    \<and> last (logged (fst (main (Inr lndClient) viewOrder historyOrder)))
         = (''Your node was not affected by CVE-2019-12999!'', [])
    \<and> ''FakeChannel(%v) resulted in loss of: %v''
         \<notin> fst ` set (logged (fst (main (Inr lndClient) viewOrder historyOrder)))
    \<and> ''Amount lost: %v''
         \<notin> fst ` set (logged (fst (main (Inr lndClient) viewOrder historyOrder)))"
proof -
  define w3 where "w3 = Printf ''Filtering out valid channels...'' []
             (Printf ''Obtaining candidate set of invalidate channels...'' []
               (rpc ListChannelsCall \<lparr>logged = [], rpcs = []\<rparr>))"
  obtain w4 inv where d: "detectInvalid lndClient (buildView channels) viewOrder w3 = (w4, inv)"
    by (cases "detectInvalid lndClient (buildView channels) viewOrder w3")
  have "inv = {}"
    using assms(2) snd_detectInvalid_world [of lndClient "buildView channels" viewOrder w3 w] d
    by simp
  then have run: "main (Inr lndClient) viewOrder historyOrder =
      (Printf ''Your node was not affected by CVE-2019-12999!'' []
         (Printf ''Num invalid channels found: %v'' [LenArg 0] w4), NotAffected)"
    using main_listed [OF assms(1) d [unfolded w3_def]] by simp
  have "rpcs w4 = rpcs w3 @ map (\<lambda>kv. GetChanInfoCall (ToUint64 (fst kv)))
                              (rangeMap (buildView channels) viewOrder)"
    using rpcs_detectInvalid [of lndClient "buildView channels" viewOrder w3] d by simp
  then have calls: "ForwardingHistoryCall \<notin> set (rpcs w4)"
    by (auto simp add: w3_def Printf_simps rpc_simps)
  have "fst ` set (logged w4) \<subseteq> fst ` set (logged w3) \<union>
       {''unable to obtain graph channel for cid(%v): %v'', ''**** FAKE CHANNEL FOUND ****'',
        ''CID: %v'', ''Actual channel value: %v'', ''Subjective channel value: %v'',
        ''****************************''}"
    using logged_fold_checkChannel_formats
      [of lndClient "rangeMap (buildView channels) viewOrder" w3 "{}"] d
    by (simp add: detectInvalid_def)
  then have formats: "''FakeChannel(%v) resulted in loss of: %v'' \<notin> fst ` set (logged w4)"
    "''Amount lost: %v'' \<notin> fst ` set (logged w4)"
    by (auto simp add: w3_def Printf_simps rpc_simps)
  show ?thesis
    using calls formats by (simp add: run Printf_simps)
qed

theorem C5_not_affected_witness:
  "ListChannels matchClient = Inr [\<lparr>ChanId = 1, Capacity = 500000\<rparr>]
   \<and> snd (detectInvalid matchClient (buildView [\<lparr>ChanId = 1, Capacity = 500000\<rparr>])
            [chanA] world0) = {}
   \<and> snd (main (Inr matchClient) [chanA] []) = NotAffected
   \<and> ForwardingHistoryCall \<notin> set (rpcs (fst (main (Inr matchClient) [chanA] [])))
   \<and> last (logged (fst (main (Inr matchClient) [chanA] [])))
        = (''Your node was not affected by CVE-2019-12999!'', [])"
proof -
  have l: "ListChannels matchClient = Inr [\<lparr>ChanId = 1, Capacity = 500000\<rparr>]"
    by (simp add: matchClient_def)
  have e: "snd (detectInvalid matchClient (buildView [\<lparr>ChanId = 1, Capacity = 500000\<rparr>])
            [chanA] world0) = {}"
    by (simp add: matchClient_def buildView_one detectInvalid_def rangeMap_Nil rangeMap_Cons
        ToUint64_chan checkChannel.simps)
  from C5_not_affected [OF l e, of "[]"] l e show ?thesis by blast
qed

text \<open>
  C8. After a successful listing, a capacity query that fails for a channel of the view
  does not end the run: the channel is put in the invalid set and the failure is logged
  with the channel and the error; the query of every channel of the view is made,
  whatever the other queries answer; and the run is aborted only if the forwarding
  history, requested because some channel is invalid, cannot be obtained.
\<close>

theorem C8_lookup_failure_not_fatal:
  assumes "ListChannels lndClient = Inr channels"
    and "rangeOrder (buildView channels) viewOrder"
  shows "(\<forall>cid subjectiveSize err.
            buildView channels cid = Some subjectiveSize
              \<and> GetChanInfo lndClient (ToUint64 cid) = Inl err \<longrightarrow>
            cid \<in> snd (detectInvalid lndClient (buildView channels) viewOrder w)
              \<and> (''unable to obtain graph channel for cid(%v): %v'', [CidArg cid, ErrArg err])
                  \<in> set (logged (fst (main (Inr lndClient) viewOrder historyOrder))))
    \<and> (\<forall>cid\<in>dom (buildView channels).
          GetChanInfoCall (ToUint64 cid)
            \<in> set (rpcs (fst (main (Inr lndClient) viewOrder historyOrder))))
    \<and> (snd (main (Inr lndClient) viewOrder historyOrder) = Aborted \<longleftrightarrow>
          snd (detectInvalid lndClient (buildView channels) viewOrder w) \<noteq> {}
            \<and> isl (ForwardingHistory lndClient))"
proof -
  define w3 where "w3 = Printf ''Filtering out valid channels...'' []
             (Printf ''Obtaining candidate set of invalidate channels...'' []
               (rpc ListChannelsCall \<lparr>logged = [], rpcs = []\<rparr>))"
  obtain w4 inv where d: "detectInvalid lndClient (buildView channels) viewOrder w3 = (w4, inv)"
    by (cases "detectInvalid lndClient (buildView channels) viewOrder w3")
  have inv: "snd (detectInvalid lndClient (buildView channels) viewOrder w) = inv"
    using snd_detectInvalid_world [of lndClient "buildView channels" viewOrder w w3] d
    by simp
  note run = main_listed [OF assms(1) d [unfolded w3_def], of historyOrder]
  have keys: "set (rangeMap (buildView channels) viewOrder)
                = {(k, v). buildView channels k = Some v}"
    using assms(2) by (auto simp add: set_rangeMap rangeOrder_def)
  have w4_rpcs: "rpcs w4 = rpcs w3 @ map (\<lambda>kv. GetChanInfoCall (ToUint64 (fst kv)))
                              (rangeMap (buildView channels) viewOrder)"
    using rpcs_detectInvalid [of lndClient "buildView channels" viewOrder w3] d by simp
  have later_logs: "set (logged w4)
      \<subseteq> set (logged (fst (main (Inr lndClient) viewOrder historyOrder)))"
    by (auto simp add: run Let_def Printf_simps rpc_simps split: sum.splits
        intro: logged_sumLosses_in)
  have later_rpcs: "set (rpcs w4)
      \<subseteq> set (rpcs (fst (main (Inr lndClient) viewOrder historyOrder)))"
    by (auto simp add: run Let_def Printf_simps rpc_simps rpcs_sumLosses split: sum.splits)
  have a: "cid \<in> inv \<and> (''unable to obtain graph channel for cid(%v): %v'',
                          [CidArg cid, ErrArg err])
                  \<in> set (logged (fst (main (Inr lndClient) viewOrder historyOrder)))"
    if v: "buildView channels cid = Some subjectiveSize"
      and g: "GetChanInfo lndClient (ToUint64 cid) = Inl err"
    for cid subjectiveSize err
  proof
    show "cid \<in> inv"
      using v g keys inv [symmetric] by (auto simp add: snd_detectInvalid)
    have "(cid, subjectiveSize) \<in> set (rangeMap (buildView channels) viewOrder)"
      using v keys by simp
    then have "(''unable to obtain graph channel for cid(%v): %v'', [CidArg cid, ErrArg err])
                  \<in> set (logged (fst (detectInvalid lndClient (buildView channels)
                                          viewOrder w3)))"
      unfolding detectInvalid_def by (rule logged_fold_checkChannel_failure [OF _ g])
    then have "(''unable to obtain graph channel for cid(%v): %v'', [CidArg cid, ErrArg err])
                  \<in> set (logged w4)"
      by (simp add: d)
    then show "(''unable to obtain graph channel for cid(%v): %v'', [CidArg cid, ErrArg err])
                  \<in> set (logged (fst (main (Inr lndClient) viewOrder historyOrder)))"
      using later_logs by blast
  qed
  have b: "GetChanInfoCall (ToUint64 cid)
            \<in> set (rpcs (fst (main (Inr lndClient) viewOrder historyOrder)))"
    if cd: "cid \<in> dom (buildView channels)" for cid
  proof -
    obtain v where "(cid, v) \<in> set (rangeMap (buildView channels) viewOrder)"
      using cd keys by auto
    then have "GetChanInfoCall (ToUint64 cid) \<in> set (rpcs w4)"
      by (force simp add: w4_rpcs)
    then show ?thesis
      using later_rpcs by blast
  qed
  have c: "snd (main (Inr lndClient) viewOrder historyOrder) = Aborted \<longleftrightarrow>
          inv \<noteq> {} \<and> isl (ForwardingHistory lndClient)"
    by (simp add: run Let_def split: sum.splits)
  show ?thesis
    using a b c by (simp add: inv)
qed

theorem C8_lookup_failure_not_fatal_witness:
  "ListChannels mixedClient
     = Inr [\<lparr>ChanId = 1, Capacity = 500000\<rparr>, \<lparr>ChanId = 2, Capacity = 300000\<rparr>]
   \<and> rangeOrder (buildView [\<lparr>ChanId = 1, Capacity = 500000\<rparr>, \<lparr>ChanId = 2, Capacity = 300000\<rparr>])
        [chanA, chanB]
   \<and> GetChanInfo mixedClient (ToUint64 chanA) = Inl ''edge not found''
   \<and> chanA \<in> snd (detectInvalid mixedClient
        (buildView [\<lparr>ChanId = 1, Capacity = 500000\<rparr>, \<lparr>ChanId = 2, Capacity = 300000\<rparr>])
        [chanA, chanB] world0)
   \<and> (''unable to obtain graph channel for cid(%v): %v'',
       [CidArg chanA, ErrArg ''edge not found''])
        \<in> set (logged (fst (main (Inr mixedClient) [chanA, chanB] [chanA, chanB])))
   \<and> GetChanInfoCall 2 \<in> set (rpcs (fst (main (Inr mixedClient) [chanA, chanB] [chanA, chanB])))
   \<and> snd (main (Inr mixedClient) [chanA, chanB] [chanA, chanB]) \<noteq> Aborted"
proof -
  have l: "ListChannels mixedClient
     = Inr [\<lparr>ChanId = 1, Capacity = 500000\<rparr>, \<lparr>ChanId = 2, Capacity = 300000\<rparr>]"
    by (simp add: mixedClient_def)
  have r: "rangeOrder
        (buildView [\<lparr>ChanId = 1, Capacity = 500000\<rparr>, \<lparr>ChanId = 2, Capacity = 300000\<rparr>])
        [chanA, chanB]"
    by (auto simp add: buildView_two rangeOrder_def chanA_neq_chanB)
  have g: "GetChanInfo mixedClient (ToUint64 chanA) = Inl ''edge not found''"
    by (simp add: mixedClient_def ToUint64_chan)
  have v: "buildView [\<lparr>ChanId = 1, Capacity = 500000\<rparr>, \<lparr>ChanId = 2, Capacity = 300000\<rparr>] chanA
             = Some 500000"
    "chanB \<in> dom (buildView [\<lparr>ChanId = 1, Capacity = 500000\<rparr>,
                               \<lparr>ChanId = 2, Capacity = 300000\<rparr>])"
    by (simp_all add: buildView_two chanA_neq_chanB)
  have h: "\<not> isl (ForwardingHistory mixedClient)"
    by (simp add: mixedClient_def)
  note c8 = C8_lookup_failure_not_fatal [OF l r, of world0 "[chanA, chanB]"]
  have a: "chanA \<in> snd (detectInvalid mixedClient
        (buildView [\<lparr>ChanId = 1, Capacity = 500000\<rparr>, \<lparr>ChanId = 2, Capacity = 300000\<rparr>])
        [chanA, chanB] world0)
   \<and> (''unable to obtain graph channel for cid(%v): %v'',
       [CidArg chanA, ErrArg ''edge not found''])
        \<in> set (logged (fst (main (Inr mixedClient) [chanA, chanB] [chanA, chanB])))"
    using c8 v(1) g by blast
  have b: "GetChanInfoCall (ToUint64 chanB)
             \<in> set (rpcs (fst (main (Inr mixedClient) [chanA, chanB] [chanA, chanB])))"
    using c8 v(2) by blast
  have c: "snd (main (Inr mixedClient) [chanA, chanB] [chanA, chanB]) \<noteq> Aborted"
    using c8 h by blast
  show ?thesis
    using l r g a b c by (simp add: ToUint64_chan)
qed

end
